theory Spec2Isabelle
  imports Main "HOL-Library.Sublist"
begin

section \<open>The packaging descriptor \<^verbatim>\<open>setup.py\<close>\<close>

text \<open>
  The repository's only source file is \<^verbatim>\<open>setup.py\<close>: an import of \<^verbatim>\<open>setup\<close> from
  setuptools and one call of it with keyword arguments. The file is embedded twice: as
  the text it is (line by line), and as the module it denotes (an import statement and a
  call whose keyword arguments are string or list-of-string literals, in source order).
\<close>

subsection \<open>The text of the file\<close>

definition newline :: char where
  "newline = CHR 0x0A"

text \<open>The lines of \<^verbatim>\<open>setup.py\<close>, in order, without their line terminators.\<close>

definition setup_py_lines :: "string list" where
  "setup_py_lines =
    [''from setuptools import setup'',
     '''',
     ''setup('',
     ''    name='livedev','',
     ''    author='Samuel Angebault','',
     ''    maintainer='Samuel Angebault','',
     ''    description='' @ [CHR 0x27, CHR 0x27] @ '','',
     ''    license='MIT','',
     ''    scripts=['',
     ''        'livedev/livedev'' @ [CHR 0x27],
     ''    ],'',
     ''    install_requires=['',
     ''        'inotify>=0.2.10','',
     ''    ],'',
     ''    tests_require=['',
     ''        'pytest','',
     ''    ],'',
     ''    packages=['',
     ''        'tests','',
     ''    ],'',
     ''    # test_suite='setup.get_test_suite','',
     ''    # test_suite='tests','',
     '')'']"

text \<open>
  The file's bytes: the lines separated by newline characters. The last line, the closing
  parenthesis, has no terminator in the file.
\<close>

fun join_lines :: "string list \<Rightarrow> string" where
  "join_lines [] = []"
| "join_lines [l] = l"
| "join_lines (l # ls) = l @ newline # join_lines ls"

definition setup_py :: string where
  "setup_py = join_lines setup_py_lines"

text \<open>
  Python's \<^verbatim>\<open>str.splitlines\<close> on a text whose only line terminator is the newline
  character: a terminator ends a line, and a last line without terminator counts when it is
  not empty. The accumulator holds the current line, reversed.
\<close>

fun splitlines_acc :: "string \<Rightarrow> string \<Rightarrow> string list" where
  "splitlines_acc acc [] = (if acc = [] then [] else [rev acc])"
| "splitlines_acc acc (c # cs) =
     (if c = newline then rev acc # splitlines_acc [] cs else splitlines_acc (c # acc) cs)"

definition splitlines :: "string \<Rightarrow> string list" where
  "splitlines s = splitlines_acc [] s"

text \<open>Lexical classes of a line: its indentation, blank lines and comment lines.\<close>

definition lstrip :: "string \<Rightarrow> string" where
  "lstrip l = dropWhile (\<lambda>c. c = CHR '' '') l"

definition is_blank :: "string \<Rightarrow> bool" where
  "is_blank l = (lstrip l = [])"

definition is_comment :: "string \<Rightarrow> bool" where
  "is_comment l = prefix ''#'' (lstrip l)"

definition is_indented :: "string \<Rightarrow> bool" where
  "is_indented l = prefix ''    '' l"

subsection \<open>The module the file denotes\<close>

text \<open>
  The values that occur as keyword arguments of the call: string literals and lists of
  string literals. The keyword arguments are kept as an association list, in source order.
\<close>

datatype pyval = Str string | StrList "string list"

type_synonym kwargs = "(string \<times> pyval) list"

datatype stmt =
    ImportFrom string "string list"
  | Call string kwargs

definition setup_kwargs :: kwargs where
  "setup_kwargs =
    [(''name'', Str ''livedev''),
     (''author'', Str ''Samuel Angebault''),
     (''maintainer'', Str ''Samuel Angebault''),
     (''description'', Str ''''),
     (''license'', Str ''MIT''),
     (''scripts'', StrList [''livedev/livedev'']),
     (''install_requires'', StrList [''inotify>=0.2.10'']),
     (''tests_require'', StrList [''pytest'']),
     (''packages'', StrList [''tests''])]"

definition setup_py_module :: "stmt list" where
  "setup_py_module =
    [ImportFrom ''setuptools'' [''setup''],
     Call ''setup'' setup_kwargs]"

text \<open>Looking a keyword up in a call; \<open>None\<close> when the call does not pass it.\<close>

definition kwarg :: "kwargs \<Rightarrow> string \<Rightarrow> pyval option" where
  "kwarg kws k = map_of kws k"

definition is_import :: "stmt \<Rightarrow> bool" where
  "is_import s = (case s of ImportFrom m ns \<Rightarrow> True | Call f kws \<Rightarrow> False)"

subsection \<open>Reading requirement strings and script paths\<close>

text \<open>
  A requirement string such as \<^verbatim>\<open>inotify>=0.2.10\<close> is a distribution name followed by a
  version specifier; the name ends at the first comparison character. A script is
  installed under the last component of its path.
\<close>

definition is_specifier_char :: "char \<Rightarrow> bool" where
  "is_specifier_char c = (c \<in> set ''<>=!~'')"

definition requirement_name :: "string \<Rightarrow> string" where
  "requirement_name r = takeWhile (\<lambda>c. \<not> is_specifier_char c) r"

definition requirement_specifier :: "string \<Rightarrow> string" where
  "requirement_specifier r = dropWhile (\<lambda>c. \<not> is_specifier_char c) r"

definition basename :: "string \<Rightarrow> string" where
  "basename p = rev (takeWhile (\<lambda>c. c \<noteq> CHR ''/'') (rev p))"

section \<open>The watcher loop\<close>

text \<open>
  The descriptor installs the script \<^verbatim>\<open>livedev/livedev\<close>, which is not among the source
  files. Its watcher loop is modelled here from the specification's description of it:
  a loop that subscribes to change notifications for its watch targets, debounces the change
  events of each target with a timer, invokes one configured action when a timer elapses,
  and releases its subscriptions when it is interrupted. Time is counted in milliseconds.
\<close>

text \<open>Modelled from the spec: points in time and the debounce interval, in milliseconds.\<close>

type_synonym time = nat

subsection \<open>Data model\<close>

text \<open>
  Modelled from the spec: the kind of a change notification (created, modified, deleted,
  moved); the script's own event type is missing.
\<close>

datatype kind = Created | Modified | Deleted | Moved

text \<open>
  Modelled from the spec: a WatchTarget, a filesystem path plus match rules; the rules are
  taken to be file extensions. The script's own target type is missing.
\<close>

datatype WatchTarget = WatchTarget (wt_path: string) (wt_rules: "string list")

text \<open>
  Modelled from the spec: a ChangeEvent, a notification record of a path and a kind; the
  script's own event type is missing.
\<close>

datatype ChangeEvent = ChangeEvent (ev_path: string) (ev_kind: kind)

text \<open>
  Modelled from the spec: a DebounceWindow, the timer state of one watch target, with the
  time at which it elapses; the script's own timer state is missing.
\<close>

datatype DebounceWindow = DebounceWindow (dw_target: WatchTarget) (dw_deadline: time)

text \<open>
  Modelled from the spec: whether a change event is relevant to a target, by the target's
  rules: the event's path lies under the target's path and ends with one of its extensions.
  The script's own matching is missing.
\<close>

definition matches :: "WatchTarget \<Rightarrow> ChangeEvent \<Rightarrow> bool" where
  "matches g e =
     (prefix (wt_path g) (ev_path e) \<and> list_ex (\<lambda>r. suffix r (ev_path e)) (wt_rules g))"

text \<open>
  Modelled from the spec: the status an action invocation returns, an exit status or a
  thrown error. The script's own invocation of the action is missing.
\<close>

datatype outcome = Exited int | Raised string

text \<open>
  Modelled from the spec: an action fails on a non-zero exit and on a thrown error. The
  script's own check of the action's status is missing.
\<close>

definition failed :: "outcome \<Rightarrow> bool" where
  "failed r = (case r of Exited n \<Rightarrow> n \<noteq> 0 | Raised m \<Rightarrow> True)"

text \<open>
  Modelled from the spec: the action is an opaque external collaborator with no input
  beyond its invocation: a function from the number of earlier invocations to the outcome
  of this one. The script's own action is missing.
\<close>

type_synonym action = "nat \<Rightarrow> outcome"

text \<open>
  Modelled from the spec: whether the loop is watching or has been shut down. The script's
  own state is missing.
\<close>

datatype status = Watching | Stopped

text \<open>
  Modelled from the spec: the explicit WatcherState value owned by the loop: the configured
  targets and debounce interval, the subscriptions held, the active debounce windows and
  whether the loop is watching; with it the observable effects of the loop, as logs: the
  action invocations (when, and for which target's window), the failures reported to the
  operator, and the subscriptions released. The script's own state is missing.
\<close>

record WatcherState =
  targets :: "WatchTarget list"
  interval :: time
  subscriptions :: "WatchTarget list"
  windows :: "DebounceWindow list"
  status :: status
  invocations :: "(time \<times> WatchTarget) list"
  reports :: "(time \<times> outcome) list"
  released :: "WatchTarget list"

text \<open>
  Modelled from the spec: what the loop receives from outside: a change notification or
  the operator's interrupt, each with its arrival time. The script's own event source is
  missing.
\<close>

datatype input = Change ChangeEvent | Interrupt

subsection \<open>Operations\<close>

text \<open>
  Modelled from the spec: startup constructs the state and subscribes to change
  notifications for each watch target. The script's own startup is missing.
\<close>

definition start :: "WatchTarget list \<Rightarrow> time \<Rightarrow> WatcherState" where
  "start tgs d =
     \<lparr>targets = tgs, interval = d, subscriptions = tgs, windows = [], status = Watching,
      invocations = [], reports = [], released = []\<rparr>"

text \<open>
  Modelled from the spec: (re)starting the debounce timer of a target at time \<open>t\<close>: a new
  window that elapses one interval later supersedes the target's window, if there is one.
  The script's own timer handling is missing.
\<close>

definition restart :: "time \<Rightarrow> WatchTarget \<Rightarrow> WatcherState \<Rightarrow> WatcherState" where
  "restart t g s =
     s\<lparr>windows := DebounceWindow g (t + interval s) # filter (\<lambda>w. dw_target w \<noteq> g) (windows s)\<rparr>"

text \<open>
  Modelled from the spec: event receipt: a change event (re)starts the timer of every
  subscribed target whose rules it matches, and is then discarded. The script's own event
  handler is missing.
\<close>

definition receive :: "time \<Rightarrow> ChangeEvent \<Rightarrow> WatcherState \<Rightarrow> WatcherState" where
  "receive t e s =
     fold (\<lambda>g s'. if matches g e then restart t g s' else s') (subscriptions s) s"

text \<open>
  Modelled from the spec: timer firing destroys the window. The script's own timer
  handling is missing.
\<close>

definition expire :: "DebounceWindow \<Rightarrow> WatcherState \<Rightarrow> WatcherState" where
  "expire w s = s\<lparr>windows := removeAll w (windows s)\<rparr>"

text \<open>
  Modelled from the spec: action invocation: the action is invoked once; when it fails, the
  failure is reported to the operator, and watching continues either way. The script's own
  invocation of the action is missing.
\<close>

definition invoke :: "action \<Rightarrow> time \<Rightarrow> WatchTarget \<Rightarrow> WatcherState \<Rightarrow> WatcherState" where
  "invoke act t g s =
     (let r = act (length (invocations s));
          s' = s\<lparr>invocations := invocations s @ [(t, g)]\<rparr>
      in if failed r then s'\<lparr>reports := reports s' @ [(t, r)]\<rparr> else s')"

text \<open>
  Modelled from the spec: when a window's timer elapses, the window is destroyed and the
  action is invoked, at the window's deadline. The script's own timer handling is missing.
\<close>

definition fire :: "action \<Rightarrow> DebounceWindow \<Rightarrow> WatcherState \<Rightarrow> WatcherState" where
  "fire act w s = invoke act (dw_deadline w) (dw_target w) (expire w s)"

text \<open>
  Modelled from the spec: the windows that have elapsed when time \<open>t\<close> is reached, their
  deadline lying before \<open>t\<close>, in the order of their deadlines. An event that arrives at the
  very deadline of a window still supersedes it. The script's own timer handling is missing.
\<close>

definition due :: "time \<Rightarrow> WatcherState \<Rightarrow> DebounceWindow list" where
  "due t s = sort_key dw_deadline (filter (\<lambda>w. dw_deadline w < t) (windows s))"

text \<open>
  Modelled from the spec: the passing of time up to \<open>t\<close>: the windows that have elapsed
  without a new matching event fire, one after the other. The script's own timer handling
  is missing.
\<close>

definition elapse :: "action \<Rightarrow> time \<Rightarrow> WatcherState \<Rightarrow> WatcherState" where
  "elapse act t s = fold (fire act) (due t s) s"

text \<open>
  Modelled from the spec: the shutdown procedure releases every subscription the loop
  holds, abandons the debounce timers in flight without invoking their action, and stops
  the loop. The script's own shutdown is missing.
\<close>

definition shutdown :: "WatcherState \<Rightarrow> WatcherState" where
  "shutdown s =
     s\<lparr>released := released s @ subscriptions s, subscriptions := [], windows := [],
       status := Stopped\<rparr>"

text \<open>
  Modelled from the spec: one turn of the single loop that serialises all processing: the
  timers that elapsed before the input's arrival fire first; then a change event is
  received, and an interrupt shuts the loop down. A stopped loop has exited and processes
  nothing. The script's own loop is missing.
\<close>

definition step :: "action \<Rightarrow> time \<times> input \<Rightarrow> WatcherState \<Rightarrow> WatcherState" where
  "step act ti s =
     (if status s = Stopped then s
      else case snd ti of
             Change e \<Rightarrow> receive (fst ti) e (elapse act (fst ti) s)
           | Interrupt \<Rightarrow> shutdown (elapse act (fst ti) s))"

text \<open>
  Modelled from the spec: the loop running on the inputs that arrive, in their order of
  arrival. The script's own loop is missing.
\<close>

fun run :: "action \<Rightarrow> WatcherState \<Rightarrow> (time \<times> input) list \<Rightarrow> WatcherState" where
  "run act s [] = s"
| "run act s (x # xs) = run act (step act x s) xs"

text \<open>
  Modelled from the spec: the loop waiting, with no input, until time \<open>T\<close> inclusive: the
  windows whose deadline is \<open>T\<close> or earlier fire. The script's own loop is missing.
\<close>

definition idle :: "action \<Rightarrow> time \<Rightarrow> WatcherState \<Rightarrow> WatcherState" where
  "idle act T s = (if status s = Stopped then s else elapse act (Suc T) s)"

subsection \<open>The vocabulary of the properties\<close>

text \<open>
  Modelled from the spec: a sequence of change events with their arrival times, as inputs
  of the loop.
\<close>

definition changes :: "(time \<times> ChangeEvent) list \<Rightarrow> (time \<times> input) list" where
  "changes es = map (\<lambda>te. (fst te, Change (snd te))) es"








text \<open>
  Modelled from the spec: the invariant, at most one debounce timer active per watch
  target at a time.
\<close>

definition one_timer_per_target :: "WatcherState \<Rightarrow> bool" where
  "one_timer_per_target s = distinct (map dw_target (windows s))"

text \<open>
  Modelled from the spec: the states the loop's operations (startup, event receipt, timer
  firing, action invocation, shutdown) can reach.
\<close>

inductive reachable :: "action \<Rightarrow> WatcherState \<Rightarrow> bool" for act :: action where
  r_start: "reachable act (start tgs d)"
| r_receive: "reachable act s \<Longrightarrow> reachable act (receive t e s)"
| r_expire: "reachable act s \<Longrightarrow> reachable act (expire w s)"
| r_invoke: "reachable act s \<Longrightarrow> reachable act (invoke act t g s)"
| r_shutdown: "reachable act s \<Longrightarrow> reachable act (shutdown s)"

subsection \<open>The scenarios of the specification\<close>

text \<open>
  Modelled from the spec: the watch target \<^verbatim>\<open>./src\<close> of the scenarios, watching Python
  files.
\<close>

definition src :: WatchTarget where
  "src = WatchTarget ''./src'' [''.py'']"

text \<open>Modelled from the spec: a second watch target, for loops with several targets.\<close>

definition lib :: WatchTarget where
  "lib = WatchTarget ''./lib'' [''.py'', ''.c'']"


text \<open>Modelled from the spec: an action that exits with status 0 each time.\<close>

definition succeeding :: action where
  "succeeding k = Exited 0"

text \<open>Modelled from the spec: the scenario's action that exits with status 1.\<close>

definition failing :: action where
  "failing k = Exited 1"

text \<open>Modelled from the spec: the scenarios' touch of a file, a modification event.\<close>

definition touch :: "string \<Rightarrow> ChangeEvent" where
  "touch p = ChangeEvent p Modified"

text \<open>
  Modelled from the spec: the loop on \<^verbatim>\<open>./src\<close> with a 200 ms debounce, after one touch at
  time 0: its timer is in flight until time 200.
\<close>

definition pending :: "action \<Rightarrow> WatcherState" where
  "pending act = run act (start [src] 200) (changes [(0, touch ''./src/a.py'')])"

section \<open>Properties of the packaging descriptor\<close>

lemma splitlines_setup_py: "splitlines setup_py = setup_py_lines"
  by (simp add: splitlines_def setup_py_def setup_py_lines_def newline_def)

text \<open>
  Claim C7. The descriptor declares a project named \<^verbatim>\<open>livedev\<close>, and its
  \<^verbatim>\<open>install_requires\<close> list has exactly one entry: the filesystem-notification library
  \<^verbatim>\<open>inotify\<close> with the version bound \<^verbatim>\<open>>=0.2.10\<close>.
\<close>

theorem setup_name_and_install_requires:
  "kwarg setup_kwargs ''name'' = Some (Str ''livedev'')
   \<and> kwarg setup_kwargs ''install_requires'' = Some (StrList [''inotify>=0.2.10''])
   \<and> length [''inotify>=0.2.10''] = 1
   \<and> requirement_name ''inotify>=0.2.10'' = ''inotify''
   \<and> requirement_specifier ''inotify>=0.2.10'' = ''>=0.2.10''"
  by (simp add: kwarg_def setup_kwargs_def requirement_name_def requirement_specifier_def
      is_specifier_char_def)

text \<open>
  Claim C8. The descriptor declares exactly one installed script, the path
  \<^verbatim>\<open>livedev/livedev\<close>, whose script name is \<^verbatim>\<open>livedev\<close>; it declares no flags or
  subcommands: the call passes no \<^verbatim>\<open>entry_points\<close> keyword, its keywords being exactly the
  nine listed.
\<close>

theorem setup_single_script:
  "kwarg setup_kwargs ''scripts'' = Some (StrList [''livedev/livedev''])
   \<and> map basename [''livedev/livedev''] = [''livedev'']
   \<and> kwarg setup_kwargs ''entry_points'' = None
   \<and> map fst setup_kwargs =
       [''name'', ''author'', ''maintainer'', ''description'', ''license'', ''scripts'',
        ''install_requires'', ''tests_require'', ''packages'']"
  by (simp add: kwarg_def setup_kwargs_def basename_def)

text \<open>
  Claim C9. The source file is 23 lines long, and it holds no logic other than the call of
  \<^verbatim>\<open>setup\<close>: line 1 is the import, line 2 is blank, line 3 opens the call, line 23 closes
  it, and every line between them is an indented continuation line of the call, two of them
  comments; the module's only statement that is not an import is that call.
\<close>

theorem setup_py_23_lines:
  "length (splitlines setup_py) = 23
   \<and> splitlines setup_py ! 0 = ''from setuptools import setup''
   \<and> is_blank (splitlines setup_py ! 1)
   \<and> splitlines setup_py ! 2 = ''setup(''
   \<and> splitlines setup_py ! 22 = '')''
   \<and> list_all is_indented (take 19 (drop 3 (splitlines setup_py)))
   \<and> map lstrip (filter is_comment (splitlines setup_py)) =
       [''# test_suite='setup.get_test_suite','', ''# test_suite='tests','']
   \<and> filter (\<lambda>s. \<not> is_import s) setup_py_module = [Call ''setup'' setup_kwargs]"
  unfolding splitlines_setup_py
  by (simp add: setup_py_lines_def is_blank_def is_comment_def lstrip_def is_indented_def
      setup_py_module_def is_import_def)

text \<open>
  Claim C10. The \<^verbatim>\<open>packages\<close> list holds only \<^verbatim>\<open>tests\<close> and no \<^verbatim>\<open>livedev\<close> package, so
  no importable implementation package is installed (nor any \<^verbatim>\<open>py_modules\<close>): the tool's
  code is shipped by the script entry alone. The declared description is the empty string,
  and the call passes no \<^verbatim>\<open>version\<close> keyword.
\<close>

theorem setup_packages_only_tests:
  "kwarg setup_kwargs ''packages'' = Some (StrList [''tests''])
   \<and> ''livedev'' \<notin> set [''tests'']
   \<and> kwarg setup_kwargs ''py_modules'' = None
   \<and> kwarg setup_kwargs ''scripts'' = Some (StrList [''livedev/livedev''])
   \<and> kwarg setup_kwargs ''description'' = Some (Str '''')
   \<and> kwarg setup_kwargs ''version'' = None"
  by (simp add: kwarg_def setup_kwargs_def)


section \<open>Properties of the watcher loop\<close>

subsection \<open>The effect of each operation on the fields of the state\<close>

lemma invoke_fields [simp]:
  "status (invoke act t g s) = status s"
  "subscriptions (invoke act t g s) = subscriptions s"
  "interval (invoke act t g s) = interval s"
  "targets (invoke act t g s) = targets s"
  "windows (invoke act t g s) = windows s"
  "released (invoke act t g s) = released s"
  "invocations (invoke act t g s) = invocations s @ [(t, g)]"
  by (simp_all add: invoke_def Let_def)

lemma invoke_reports:
  "reports (invoke act t g s) =
     (if failed (act (length (invocations s)))
      then reports s @ [(t, act (length (invocations s)))] else reports s)"
  by (simp add: invoke_def Let_def)

lemma expire_fields [simp]:
  "status (expire w s) = status s"
  "subscriptions (expire w s) = subscriptions s"
  "interval (expire w s) = interval s"
  "targets (expire w s) = targets s"
  "windows (expire w s) = removeAll w (windows s)"
  "released (expire w s) = released s"
  "invocations (expire w s) = invocations s"
  "reports (expire w s) = reports s"
  by (simp_all add: expire_def)

lemma fire_fields [simp]:
  "status (fire act w s) = status s"
  "subscriptions (fire act w s) = subscriptions s"
  "interval (fire act w s) = interval s"
  "targets (fire act w s) = targets s"
  "windows (fire act w s) = removeAll w (windows s)"
  "released (fire act w s) = released s"
  "invocations (fire act w s) = invocations s @ [(dw_deadline w, dw_target w)]"
  by (simp_all add: fire_def)

lemma fold_fire_fields [simp]:
  "status (fold (fire act) ws s) = status s"
  "subscriptions (fold (fire act) ws s) = subscriptions s"
  "interval (fold (fire act) ws s) = interval s"
  "targets (fold (fire act) ws s) = targets s"
  "released (fold (fire act) ws s) = released s"
  by (induction ws arbitrary: s; simp)+


lemma fold_fire_invocations:
  "invocations (fold (fire act) ws s) =
     invocations s @ map (\<lambda>w. (dw_deadline w, dw_target w)) ws"
  by (induction ws arbitrary: s) simp_all

lemma set_due: "set (due t s) = {w \<in> set (windows s). dw_deadline w < t}"
  by (auto simp: due_def)

lemma elapse_fields [simp]:
  "status (elapse act t s) = status s"
  "subscriptions (elapse act t s) = subscriptions s"
  "interval (elapse act t s) = interval s"
  "targets (elapse act t s) = targets s"
  "released (elapse act t s) = released s"
  by (simp_all add: elapse_def)


lemma elapse_invocations:
  "invocations (elapse act t s) =
     invocations s @ map (\<lambda>w. (dw_deadline w, dw_target w)) (due t s)"
  by (simp add: elapse_def fold_fire_invocations)

lemma elapse_none_due:
  "list_all (\<lambda>w. t \<le> dw_deadline w) (windows s) \<Longrightarrow> elapse act t s = s"
proof -
  assume "list_all (\<lambda>w. t \<le> dw_deadline w) (windows s)"
  then have "filter (\<lambda>w. dw_deadline w < t) (windows s) = []"
    by (auto simp: list_all_iff filter_empty_conv)
  then show ?thesis by (simp add: elapse_def due_def)
qed

lemma elapse_single_due:
  "windows s = [w] \<Longrightarrow> dw_deadline w < t \<Longrightarrow> elapse act t s = fire act w s"
  by (simp add: elapse_def due_def)

lemma restart_fields [simp]:
  "status (restart t g s) = status s"
  "subscriptions (restart t g s) = subscriptions s"
  "interval (restart t g s) = interval s"
  "targets (restart t g s) = targets s"
  "released (restart t g s) = released s"
  "invocations (restart t g s) = invocations s"
  "reports (restart t g s) = reports s"
  by (simp_all add: restart_def)

lemma fold_restart_fields [simp]:
  "status (fold (\<lambda>g s'. if matches g e then restart t g s' else s') xs s) = status s"
  "subscriptions (fold (\<lambda>g s'. if matches g e then restart t g s' else s') xs s) = subscriptions s"
  "interval (fold (\<lambda>g s'. if matches g e then restart t g s' else s') xs s) = interval s"
  "targets (fold (\<lambda>g s'. if matches g e then restart t g s' else s') xs s) = targets s"
  "released (fold (\<lambda>g s'. if matches g e then restart t g s' else s') xs s) = released s"
  "invocations (fold (\<lambda>g s'. if matches g e then restart t g s' else s') xs s) = invocations s"
  "reports (fold (\<lambda>g s'. if matches g e then restart t g s' else s') xs s) = reports s"
  by (induction xs arbitrary: s; simp)+

lemma receive_fields [simp]:
  "status (receive t e s) = status s"
  "subscriptions (receive t e s) = subscriptions s"
  "interval (receive t e s) = interval s"
  "targets (receive t e s) = targets s"
  "released (receive t e s) = released s"
  "invocations (receive t e s) = invocations s"
  "reports (receive t e s) = reports s"
  by (simp_all add: receive_def)


subsection \<open>The windows and invocations of one target\<close>
















lemma last_ge: "xs \<noteq> [] \<Longrightarrow> \<forall>x\<in>set xs. (t::nat) \<le> x \<Longrightarrow> t \<le> last xs"
  by simp


subsection \<open>A run of change events, seen from one target\<close>


subsection \<open>Bursts and spaced events\<close>




















subsection \<open>The scenario with a timer in flight\<close>

lemma pending_fields:
  "status (pending act) = Watching"
  "windows (pending act) = [DebounceWindow src 200]"
  "subscriptions (pending act) = [src]"
  "interval (pending act) = 200"
  "invocations (pending act) = []"
  "reports (pending act) = []"
  "released (pending act) = []"
proof -
  have m: "matches src (touch ''./src/a.py'')" by code_simp
  have "pending act = (start [src] 200)\<lparr>windows := [DebounceWindow src 200]\<rparr>"
    by (simp add: pending_def changes_def step_def start_def elapse_def due_def receive_def
        restart_def m)
  then show "status (pending act) = Watching"
    "windows (pending act) = [DebounceWindow src 200]"
    "subscriptions (pending act) = [src]"
    "interval (pending act) = 200"
    "invocations (pending act) = []"
    "reports (pending act) = []"
    "released (pending act) = []"
    by (simp_all add: start_def)
qed

subsection \<open>Failure of the action\<close>

lemma restart_windows:
  "windows (restart t g s) =
     DebounceWindow g (t + interval s) # filter (\<lambda>w. dw_target w \<noteq> g) (windows s)"
  by (simp add: restart_def)

lemma fold_restart_keeps:
  "DebounceWindow g (t + interval s) \<in> set (windows s) \<Longrightarrow>
   DebounceWindow g (t + interval s)
     \<in> set (windows (fold (\<lambda>g' s'. if matches g' e then restart t g' s' else s') xs s))"
proof (induction xs arbitrary: s)
  case Nil
  then show ?case by simp
next
  case (Cons a xs)
  let ?s' = "if matches a e then restart t a s else s"
  have "DebounceWindow g (t + interval ?s') \<in> set (windows ?s')"
    using Cons.prems by (auto simp: restart_windows)
  from Cons.IH[OF this] show ?case by (cases "matches a e") simp_all
qed

lemma fold_restart_adds:
  "g \<in> set xs \<Longrightarrow> matches g e \<Longrightarrow>
   DebounceWindow g (t + interval s)
     \<in> set (windows (fold (\<lambda>g' s'. if matches g' e then restart t g' s' else s') xs s))"
proof (induction xs arbitrary: s)
  case Nil
  then show ?case by simp
next
  case (Cons a xs)
  show ?case
  proof (cases "a = g")
    case True
    have "DebounceWindow g (t + interval (restart t g s)) \<in> set (windows (restart t g s))"
      by (simp add: restart_windows)
    from fold_restart_keeps[OF this] show ?thesis
      using True Cons.prems by simp
  next
    case False
    let ?s' = "if matches a e then restart t a s else s"
    have "DebounceWindow g (t + interval ?s')
        \<in> set (windows (fold (\<lambda>g' s'. if matches g' e then restart t g' s' else s') xs ?s'))"
      using False Cons.prems by (intro Cons.IH) simp_all
    then show ?thesis by (cases "matches a e") simp_all
  qed
qed

lemma receive_window:
  "g \<in> set (subscriptions s) \<Longrightarrow> matches g e \<Longrightarrow>
   DebounceWindow g (t + interval s) \<in> set (windows (receive t e s))"
  by (simp add: receive_def fold_restart_adds)

lemma fire_reports:
  "failed (act (length (invocations s))) \<Longrightarrow>
   reports (fire act w s) = reports s @ [(dw_deadline w, act (length (invocations s)))]"
  by (simp add: fire_def invoke_reports)

lemma step_change_watching:
  "status s = Watching \<Longrightarrow> step act (t, Change e) s = receive t e (elapse act t s)"
  by (simp add: step_def)

lemma new_invocation_after_event:
  assumes "status s = Watching" "g \<in> set (subscriptions s)" "matches g e"
    and "t + interval s \<le> T"
  shows "(t + interval s, g)
     \<in> set (drop (length (invocations s)) (invocations (idle act T (step act (t, Change e) s))))"
proof -
  let ?s1 = "elapse act t s"
  let ?s2 = "receive t e ?s1"
  let ?w = "DebounceWindow g (t + interval s)"
  have w: "?w \<in> set (windows ?s2)"
    using receive_window[of g ?s1 e t] assms by simp
  then have "?w \<in> set (due (Suc T) ?s2)"
    using assms(4) by (simp add: set_due)
  then have "(t + interval s, g) \<in> set (map (\<lambda>w. (dw_deadline w, dw_target w)) (due (Suc T) ?s2))"
    by force
  moreover have "invocations (idle act T ?s2) =
      invocations s @ map (\<lambda>w. (dw_deadline w, dw_target w)) (due t s)
        @ map (\<lambda>w. (dw_deadline w, dw_target w)) (due (Suc T) ?s2)"
    using assms(1) by (simp add: idle_def elapse_invocations)
  ultimately show ?thesis
    using assms(1) by (simp add: step_change_watching)
qed

text \<open>
  Claim C3. When an action invocation fails (a non-zero exit or a thrown error), the loop
  does not terminate: the failure is reported, the loop stays watching with its
  subscriptions, and every later change event matching a subscribed target triggers a new
  action invocation, one interval after its arrival.
\<close>

theorem failed_action_keeps_watching:
  assumes "status s = Watching"
    and "w \<in> set (windows s)"
    and "failed (act (length (invocations s)))"
  shows "status (fire act w s) = Watching
       \<and> subscriptions (fire act w s) = subscriptions s
       \<and> reports (fire act w s) = reports s @ [(dw_deadline w, act (length (invocations s)))]
       \<and> (\<forall>t e g T. g \<in> set (subscriptions s) \<and> matches g e \<and> t + interval s \<le> T \<longrightarrow>
            (t + interval s, g)
              \<in> set (drop (length (invocations (fire act w s)))
                   (invocations (idle act T (step act (t, Change e) (fire act w s))))))"
proof -
  have "(t + interval s, g)
      \<in> set (drop (length (invocations (fire act w s)))
           (invocations (idle act T (step act (t, Change e) (fire act w s)))))"
    if "g \<in> set (subscriptions s)" "matches g e" "t + interval s \<le> T" for t e g T
    using new_invocation_after_event[of "fire act w s" g e t T act] assms(1) that by simp
  then show ?thesis
    using assms by (simp add: fire_reports)
qed

theorem failed_action_keeps_watching_witness:
  "status (pending failing) = Watching
   \<and> DebounceWindow src 200 \<in> set (windows (pending failing))
   \<and> failed (failing (length (invocations (pending failing))))
   \<and> status (fire failing (DebounceWindow src 200) (pending failing)) = Watching
   \<and> subscriptions (fire failing (DebounceWindow src 200) (pending failing)) = [src]
   \<and> reports (fire failing (DebounceWindow src 200) (pending failing)) = [(200, Exited 1)]
   \<and> (500, src) \<in> set (drop 1 (invocations (idle failing 500
        (step failing (300, Change (touch ''./src/b.py''))
          (fire failing (DebounceWindow src 200) (pending failing))))))"
proof -
  let ?w = "DebounceWindow src 200"
  have h1: "status (pending failing) = Watching" by (simp add: pending_fields)
  have h2: "?w \<in> set (windows (pending failing))" by (simp add: pending_fields)
  have h3: "failed (failing (length (invocations (pending failing))))"
    by (simp add: failed_def failing_def)
  have m: "matches src (touch ''./src/b.py'')" by code_simp
  note c = failed_action_keeps_watching[where s = "pending failing" and w = ?w
      and act = failing, OF h1 h2 h3]
  have q: "g \<in> set (subscriptions (pending failing)) \<and> matches g e
        \<and> t + interval (pending failing) \<le> T \<longrightarrow>
      (t + interval (pending failing), g)
        \<in> set (drop (length (invocations (fire failing ?w (pending failing))))
             (invocations (idle failing T (step failing (t, Change e)
                (fire failing ?w (pending failing))))))" for t e g T
    using c by blast
  have "(300 + interval (pending failing), src)
      \<in> set (drop (length (invocations (fire failing ?w (pending failing))))
           (invocations (idle failing 500 (step failing (300, Change (touch ''./src/b.py''))
              (fire failing ?w (pending failing))))))"
    using m q[of src "touch ''./src/b.py''" 300 500] by (simp add: pending_fields)
  then have "(500, src) \<in> set (drop 1 (invocations (idle failing 500
        (step failing (300, Change (touch ''./src/b.py'')) (fire failing ?w (pending failing))))))"
    by (simp add: pending_fields)
  then show ?thesis
    using h1 h2 h3 c by (simp add: pending_fields failing_def)
qed

subsection \<open>Shutdown\<close>

text \<open>
  Claim C4. The shutdown procedure is idempotent: from every state, shutting down twice
  yields the same state as shutting down once, and the same released subscriptions: those
  held before the first shutdown, each released once.
\<close>

theorem shutdown_idempotent:
  "shutdown (shutdown s) = shutdown s
   \<and> released (shutdown (shutdown s)) = released s @ subscriptions s
   \<and> subscriptions (shutdown s) = []"
  by (simp add: shutdown_def)

subsection \<open>The timer invariant\<close>

lemma distinct_restart:
  "distinct (map dw_target ws) \<Longrightarrow>
   distinct (map dw_target (DebounceWindow g dl # filter (\<lambda>w. dw_target w \<noteq> g) ws))"
  by (auto simp: distinct_map_filter)

lemma one_timer_restart:
  "one_timer_per_target s \<Longrightarrow> one_timer_per_target (restart t g s)"
  unfolding one_timer_per_target_def restart_windows by (rule distinct_restart)

lemma one_timer_receive:
  "one_timer_per_target s \<Longrightarrow> one_timer_per_target (receive t e s)"
proof -
  have "one_timer_per_target s' \<Longrightarrow>
        one_timer_per_target (fold (\<lambda>g s'. if matches g e then restart t g s' else s') xs s')"
    for xs s'
    by (induction xs arbitrary: s') (simp_all add: one_timer_restart)
  then show "one_timer_per_target s \<Longrightarrow> ?thesis"
    by (simp add: receive_def)
qed

lemma one_timer_expire:
  "one_timer_per_target s \<Longrightarrow> one_timer_per_target (expire w s)"
  by (simp add: one_timer_per_target_def removeAll_filter_not_eq distinct_map_filter)

lemma one_timer_invoke:
  "one_timer_per_target s \<Longrightarrow> one_timer_per_target (invoke act t g s)"
  by (simp add: one_timer_per_target_def)

lemma one_timer_shutdown: "one_timer_per_target (shutdown s)"
  by (simp add: one_timer_per_target_def shutdown_def)

lemma one_timer_start: "one_timer_per_target (start tgs d)"
  by (simp add: one_timer_per_target_def start_def)

lemma reachable_fire: "reachable act s \<Longrightarrow> reachable act (fire act w s)"
  unfolding fire_def by (intro r_invoke r_expire)

lemma reachable_elapse: "reachable act s \<Longrightarrow> reachable act (elapse act t s)"
proof -
  have "reachable act s' \<Longrightarrow> reachable act (fold (fire act) ws s')" for ws s'
    by (induction ws arbitrary: s') (simp_all add: reachable_fire)
  then show "reachable act s \<Longrightarrow> ?thesis"
    by (simp add: elapse_def)
qed

lemma reachable_step: "reachable act s \<Longrightarrow> reachable act (step act x s)"
  by (cases "snd x") (auto simp: step_def intro: r_receive r_shutdown reachable_elapse)

lemma reachable_run: "reachable act s \<Longrightarrow> reachable act (run act s tr)"
  by (induction tr arbitrary: s) (simp_all add: reachable_step)

lemma reachable_idle: "reachable act s \<Longrightarrow> reachable act (idle act T s)"
  by (simp add: idle_def reachable_elapse)

text \<open>
  Claim C5. In every reachable state of the loop at most one debounce timer is active per
  watch target: startup establishes it, and event receipt, timer firing, action invocation
  and shutdown preserve it.
\<close>

theorem one_timer_per_target_invariant:
  "reachable act s \<Longrightarrow> one_timer_per_target s"
proof (induction rule: reachable.induct)
  case (r_start tgs d)
  show ?case by (rule one_timer_start)
next
  case (r_receive s t e)
  then show ?case by (simp add: one_timer_receive)
next
  case (r_expire s w)
  then show ?case by (simp add: one_timer_expire)
next
  case (r_invoke s t g)
  then show ?case by (simp add: one_timer_invoke)
next
  case (r_shutdown s)
  show ?case by (rule one_timer_shutdown)
qed

theorem one_timer_per_target_invariant_witness:
  "reachable succeeding (run succeeding (start [src, lib] 200)
      (changes [(0, touch ''./src/a.py''), (10, touch ''./lib/b.c'')]))
   \<and> one_timer_per_target (run succeeding (start [src, lib] 200)
      (changes [(0, touch ''./src/a.py''), (10, touch ''./lib/b.c'')]))"
proof -
  have r: "reachable succeeding (run succeeding (start [src, lib] 200)
      (changes [(0, touch ''./src/a.py''), (10, touch ''./lib/b.c'')]))"
    by (intro reachable_run r_start)
  from r one_timer_per_target_invariant[OF r] show ?thesis by simp
qed

subsection \<open>Interrupts\<close>

lemma run_stopped: "status s = Stopped \<Longrightarrow> run act s tr = s"
  by (induction tr) (simp_all add: step_def)

lemma idle_stopped: "status s = Stopped \<Longrightarrow> idle act T s = s"
  by (simp add: idle_def)

lemma shutdown_fields [simp]:
  "status (shutdown s) = Stopped"
  "windows (shutdown s) = []"
  "subscriptions (shutdown s) = []"
  "released (shutdown s) = released s @ subscriptions s"
  "invocations (shutdown s) = invocations s"
  "reports (shutdown s) = reports s"
  by (simp_all add: shutdown_def)

lemma step_interrupt_watching:
  "status s = Watching \<Longrightarrow> step act (t, Interrupt) s = shutdown (elapse act t s)"
  by (simp add: step_def)

text \<open>
  Claim C6. When an interrupt arrives while a debounce timer is in flight, the loop
  abandons the timer and releases all its subscriptions; the pending action of that timer
  is not invoked by the interrupt's turn, and nothing is invoked afterwards, whatever
  arrives and however long the loop is left.
\<close>

theorem interrupt_abandons_timer:
  assumes "status s = Watching"
    and "w \<in> set (windows s)"
    and "t \<le> dw_deadline w"
  shows "windows (step act (t, Interrupt) s) = []
       \<and> subscriptions (step act (t, Interrupt) s) = []
       \<and> released (step act (t, Interrupt) s) = released s @ subscriptions s
       \<and> status (step act (t, Interrupt) s) = Stopped
       \<and> (dw_deadline w, dw_target w)
            \<notin> set (drop (length (invocations s)) (invocations (step act (t, Interrupt) s)))
       \<and> (\<forall>tr T. idle act T (run act (step act (t, Interrupt) s) tr) = step act (t, Interrupt) s)"
proof -
  let ?s' = "step act (t, Interrupt) s"
  have s': "?s' = shutdown (elapse act t s)"
    using assms(1) by (rule step_interrupt_watching)
  have "(dw_deadline w, dw_target w) \<notin> set (map (\<lambda>w. (dw_deadline w, dw_target w)) (due t s))"
    using assms(3) by (auto simp: set_due)
  then have a: "(dw_deadline w, dw_target w)
      \<notin> set (drop (length (invocations s)) (invocations ?s'))"
    by (simp add: s' elapse_invocations)
  have "status ?s' = Stopped"
    by (simp add: s')
  then have b: "idle act T (run act ?s' tr) = ?s'" for tr T
    by (simp add: run_stopped idle_stopped)
  show ?thesis
    using a b by (simp add: s')
qed

theorem interrupt_abandons_timer_witness:
  "status (pending succeeding) = Watching
   \<and> DebounceWindow src 200 \<in> set (windows (pending succeeding))
   \<and> 100 \<le> dw_deadline (DebounceWindow src 200)
   \<and> windows (step succeeding (100, Interrupt) (pending succeeding)) = []
   \<and> subscriptions (step succeeding (100, Interrupt) (pending succeeding)) = []
   \<and> released (step succeeding (100, Interrupt) (pending succeeding)) = [src]
   \<and> status (step succeeding (100, Interrupt) (pending succeeding)) = Stopped
   \<and> invocations (idle succeeding 1000 (run succeeding
        (step succeeding (100, Interrupt) (pending succeeding))
        (changes [(120, touch ''./src/b.py'')]))) = []"
proof -
  let ?w = "DebounceWindow src 200"
  have h1: "status (pending succeeding) = Watching" by (simp add: pending_fields)
  have h2: "?w \<in> set (windows (pending succeeding))" by (simp add: pending_fields)
  have h3: "100 \<le> dw_deadline ?w" by simp
  note c = interrupt_abandons_timer[OF h1 h2 h3, of succeeding]
  have i: "invocations (step succeeding (100, Interrupt) (pending succeeding)) = []"
    using h1 by (simp add: step_interrupt_watching elapse_invocations due_def pending_fields)
  from c have "idle succeeding 1000 (run succeeding
        (step succeeding (100, Interrupt) (pending succeeding))
        (changes [(120, touch ''./src/b.py'')])) = step succeeding (100, Interrupt) (pending succeeding)"
    by blast
  then show ?thesis
    using h1 h2 c i by (simp add: pending_fields)
qed

end
